theory Spec2Isabelle
  imports Main
begin

section \<open>The mailer: an HTTP-to-email relay (server.go)\<close>

text \<open>
  The program is one Go file. Its interesting part is \<open>Email.Send\<close>: it looks up the MX
  records of the inbox's domain and tries each mail server in turn. Around it are the
  message builder \<open>Email.ConstructMessage\<close>, the unused helper \<open>sendErrorMessage\<close> and
  the HTTP handler \<open>SendHandler.ServeHTTP\<close>.

  Everything the program does to the outside (DNS, SMTP, the mail library's serialiser,
  the JSON decoder) is a call into a package that is not part of the repository. Those
  calls are parameters of the model (the record \<open>env\<close>); their answers may depend on an
  abstract state of the outside, \<open>'w\<close>, which every call may change. The calls made
  while sending (DNS lookups, log lines, serialisations, SMTP transactions) are recorded,
  in order, in the list \<open>events\<close>.
\<close>

subsection \<open>Data\<close>

text \<open>A Go \<open>error\<close> value that is not nil; \<open>Error\<close> is its method \<open>Error()\<close>. A
  value of type \<open>error\<close> that may be nil is an \<open>error option\<close>, \<open>None\<close> being nil.\<close>

datatype error = Err string

fun Error :: "error \<Rightarrow> string" where
  "Error (Err text) = text"

text \<open>\<open>type Email struct { From, Subject, Body string }\<close>\<close>

record Email =
  From :: string
  Subject :: string
  Body :: string

text \<open>The package-level variables \<open>inboxAddress\<close>, \<open>outboundSender\<close> and
  \<open>whitelistedDomain\<close>, set once by \<open>main\<close> from the environment.\<close>

record config =
  inboxAddress :: string
  outboundSender :: string
  whitelistedDomain :: string

text \<open>The message of the mail library (\<open>email.NewEmail()\<close>), with the four fields that
  \<open>ConstructMessage\<close> assigns; every other field keeps the value \<open>NewEmail\<close> gave it.\<close>

record LibEmail =
  msg_From :: string
  msg_To :: "string list"
  msg_Subject :: string
  msg_Text :: string

text \<open>\<open>net.MX\<close>: a host name and a preference.\<close>

record MX =
  Host :: string
  Pref :: nat

text \<open>A call into another package, with its arguments: \<open>net.LookupMX\<close>,
  \<open>log.Printf\<close> (the formatted line), the library's \<open>Bytes\<close> and \<open>smtp.SendMail\<close>
  (server, sender, recipients, message).\<close>

datatype event =
    Call_LookupMX string
  | Call_Printf string
  | Call_Bytes LibEmail
  | Call_SendMail string string "string list" string

text \<open>The packages the program calls. \<open>net_LookupMX\<close> and \<open>email_Bytes\<close> return a value and
  an error, as in Go; \<open>smtp_SendMail server from to msg\<close> is \<open>smtp.SendMail\<close> with a nil
  \<open>auth\<close>; \<open>json_Decode body v\<close> is \<open>json.NewDecoder(body).Decode(&v)\<close>, which updates
  the struct it is given.\<close>

record 'w env =
  net_LookupMX :: "string \<Rightarrow> 'w \<Rightarrow> (MX list \<times> error option) \<times> 'w"
  smtp_SendMail :: "string \<Rightarrow> string \<Rightarrow> string list \<Rightarrow> string \<Rightarrow> 'w \<Rightarrow> error option \<times> 'w"
  email_Bytes :: "LibEmail \<Rightarrow> 'w \<Rightarrow> (string \<times> error option) \<times> 'w"
  json_Decode :: "string \<Rightarrow> Email \<Rightarrow> Email \<times> error option"

record 'w state =
  world :: 'w
  events :: "event list"

text \<open>A Go call either returns or panics.\<close>

datatype 'a result = Panic | Return 'a

subsection \<open>The library functions the program uses\<close>

definition emit :: "event \<Rightarrow> 'w state \<Rightarrow> 'w state" where
  "emit ev s = s\<lparr>events := events s @ [ev]\<rparr>"

definition log_Printf :: "string \<Rightarrow> 'w state \<Rightarrow> 'w state" where
  "log_Printf line s = emit (Call_Printf line) s"

definition LookupMX :: "'w env \<Rightarrow> string \<Rightarrow> 'w state \<Rightarrow> (MX list \<times> error option) \<times> 'w state" where
  "LookupMX env domain s =
     (case net_LookupMX env domain (world s) of
        (r, w') \<Rightarrow> (r, emit (Call_LookupMX domain) (s\<lparr>world := w'\<rparr>)))"

definition SendMail ::
  "'w env \<Rightarrow> string \<Rightarrow> string \<Rightarrow> string list \<Rightarrow> string \<Rightarrow> 'w state \<Rightarrow> error option \<times> 'w state" where
  "SendMail env server sender rcpts msg s =
     (case smtp_SendMail env server sender rcpts msg (world s) of
        (err, w') \<Rightarrow> (err, emit (Call_SendMail server sender rcpts msg) (s\<lparr>world := w'\<rparr>)))"

text \<open>\<open>strings.Index\<close> for a separator of one byte: the position of its first occurrence
  (Go returns -1 where this returns \<open>None\<close>).\<close>

fun Index :: "string \<Rightarrow> char \<Rightarrow> nat option" where
  "Index [] sep = None"
| "Index (c # cs) sep = (if c = sep then Some 0 else map_option Suc (Index cs sep))"

text \<open>\<open>strings.Split\<close> for a separator of one byte, as \<open>genSplit\<close> computes it: cut at each
  occurrence of the separator, and the rest of the string is the last element.\<close>

function Split :: "string \<Rightarrow> char \<Rightarrow> string list" where
  "Split s sep =
     (case Index s sep of
        None \<Rightarrow> [s]
      | Some m \<Rightarrow> take m s # Split (drop (m + 1) s) sep)"
  by pat_completeness auto
termination
proof (relation "measure (\<lambda>(s, sep). length s)")
  show "wf (measure (\<lambda>(s, sep). length s))"
    by simp
next
  fix s :: string and sep :: char and m :: nat
  assume found: "Index s sep = Some m"
  have "\<And>k. Index s sep = Some k \<Longrightarrow> k < length s"
    by (induction s) (auto split: if_splits)
  with found have "m < length s"
    by blast
  then show "((drop (m + 1) s, sep), (s, sep)) \<in> measure (\<lambda>(s, sep). length s)"
    by simp
qed

text \<open>\<open>strings.TrimRight s cutset\<close>: \<open>s\<close> without its trailing bytes that are in
  \<open>cutset\<close>.\<close>

definition TrimRight :: "string \<Rightarrow> string \<Rightarrow> string" where
  "TrimRight s cutset = rev (dropWhile (\<lambda>c. c \<in> set cutset) (rev s))"

subsection \<open>ConstructMessage\<close>

definition ConstructMessage ::
  "'w env \<Rightarrow> config \<Rightarrow> Email \<Rightarrow> 'w state \<Rightarrow> (string \<times> error option) \<times> 'w state" where
  "ConstructMessage env cfg m s =
     (let message = \<lparr>msg_From = From m,
                     msg_To = [inboxAddress cfg],
                     msg_Subject = Subject m,
                     msg_Text = Body m\<rparr>
      in case email_Bytes env message (world s) of
           (r, w') \<Rightarrow> (r, emit (Call_Bytes message) (s\<lparr>world := w'\<rparr>)))"

subsection \<open>Send\<close>

text \<open>
  The second loop of \<open>Send\<close>, over the candidate servers. Its body declares its own
  \<open>msg\<close> and \<open>err\<close> (\<open>msg, err := e.ConstructMessage()\<close> stands in the block of the
  loop body, so \<open>:=\<close> declares both), and \<open>err = smtp.SendMail(...)\<close> assigns that
  \<open>err\<close>. The loop therefore changes nothing but the outside: it returns the state.
\<close>

fun Send_loop :: "'w env \<Rightarrow> config \<Rightarrow> Email \<Rightarrow> string list \<Rightarrow> 'w state \<Rightarrow> 'w state" where
  "Send_loop env cfg e [] s = s"
| "Send_loop env cfg e (server # servers) s =
     (case ConstructMessage env cfg e s of
        ((msg, err), s1) \<Rightarrow>
          (case err of
             None \<Rightarrow>
               (let s2 = log_Printf (''Attempting send to: '' @ server
                                      @ '', smtp_from: '' @ outboundSender cfg
                                      @ '', rcpt_to: '' @ inboxAddress cfg
                                      @ '', message: '' @ msg @ [CHR 0x0A]) s1
                in case SendMail env server (outboundSender cfg) [inboxAddress cfg] msg s2 of
                     (err, s3) \<Rightarrow>
                       (case err of
                          None \<Rightarrow> s3
                        | Some err' \<Rightarrow>
                            Send_loop env cfg e servers
                              (log_Printf (''Received error from mx server: '' @ Error err'
                                           @ [CHR 0x0A]) s3)))
           | Some _ \<Rightarrow> Send_loop env cfg e servers s1))"

text \<open>
  \<open>Send\<close>. \<open>mailTokens[len(mailTokens)-1]\<close> panics on an empty slice. The \<open>err\<close> that
  \<open>Send\<close> returns at its end is the variable of the function body, which
  \<open>mxServers, err := net.LookupMX(domain)\<close> assigned last.
\<close>

definition Send :: "'w env \<Rightarrow> config \<Rightarrow> Email \<Rightarrow> 'w state \<Rightarrow> error option result \<times> 'w state" where
  "Send env cfg e s =
     (let mailTokens = Split (inboxAddress cfg) CHR ''@''
      in if mailTokens = [] then (Panic, s)
         else
           (let domain = mailTokens ! (length mailTokens - 1)
            in case LookupMX env domain s of
                 ((mxServers, err), s1) \<Rightarrow>
                   (case err of
                      Some _ \<Rightarrow> (Return err, s1)
                    | None \<Rightarrow>
                        (let servers = map (\<lambda>server. TrimRight (Host server) ''.'' @ '':25'') mxServers
                         in (Return err, Send_loop env cfg e servers s1)))))"

subsection \<open>sendErrorMessage\<close>

text \<open>The result of \<open>email.Send()\<close> is dropped; a panic is not.\<close>

definition sendErrorMessage :: "'w env \<Rightarrow> config \<Rightarrow> error \<Rightarrow> 'w state \<Rightarrow> unit result \<times> 'w state" where
  "sendErrorMessage env cfg err s =
     (let s1 = log_Printf (''Got Error: '' @ Error err @ [CHR 0x0A]) s;
          mailTokens = Split (outboundSender cfg) CHR ''@''
      in if mailTokens = [] then (Panic, s1)
         else
           (let domain = mailTokens ! (length mailTokens - 1);
                sender = ''errors@'' @ domain;
                email = \<lparr>From = sender, Subject = ''Application Error'', Body = Error err\<rparr>
            in case Send env cfg email s1 of
                 (Panic, s2) \<Rightarrow> (Panic, s2)
               | (Return _, s2) \<Rightarrow> (Return (), s2)))"

subsection \<open>The HTTP handler\<close>

text \<open>A request as the handler reads it, and the response it writes: the status of the
  first \<open>WriteHeader\<close> and the bytes written.\<close>

record Request =
  Method :: string
  URL_Path :: string
  Header :: "(string \<times> string) list"
  ReqBody :: string

record ResponseWriter =
  status :: "nat option"
  written :: string

definition Header_Get :: "(string \<times> string) list \<Rightarrow> string \<Rightarrow> string" where
  "Header_Get h key = (case map_of h key of None \<Rightarrow> '''' | Some v \<Rightarrow> v)"

definition WriteHeader :: "nat \<Rightarrow> ResponseWriter \<Rightarrow> ResponseWriter" where
  "WriteHeader code w = (if status w = None then w\<lparr>status := Some code\<rparr> else w)"

definition Fprint :: "string \<Rightarrow> ResponseWriter \<Rightarrow> ResponseWriter" where
  "Fprint text w = (let w' = WriteHeader 200 w in w'\<lparr>written := written w' @ text\<rparr>)"

definition StatusAccepted :: nat where "StatusAccepted = 202"
definition StatusNotFound :: nat where "StatusNotFound = 404"
definition StatusNotAcceptable :: nat where "StatusNotAcceptable = 406"
definition StatusUnsupportedMediaType :: nat where "StatusUnsupportedMediaType = 415"

text \<open>
  \<open>ServeHTTP\<close> returns the response and, when it reaches \<open>go func() {...}()\<close>, the
  \<open>message\<close> that the goroutine holds; \<open>None\<close> when no goroutine is started.
\<close>

definition ServeHTTP :: "'w env \<Rightarrow> Request \<Rightarrow> ResponseWriter \<Rightarrow> ResponseWriter \<times> Email option" where
  "ServeHTTP env r w =
     (if Method r \<noteq> ''POST'' \<or> URL_Path r \<noteq> ''/send'' then
        (Fprint ''404'' (WriteHeader StatusNotFound w), None)
      else if Header_Get (Header r) ''Content-Type'' \<noteq> ''application/json'' then
        (Fprint ''415'' (WriteHeader StatusUnsupportedMediaType w), None)
      else if Header_Get (Header r) ''Accept'' \<noteq> ''*/*''
              \<and> Header_Get (Header r) ''Accept'' \<noteq> ''application/json'' then
        (Fprint ''406'' (WriteHeader StatusNotAcceptable w), None)
      else
        (case json_Decode env (ReqBody r) \<lparr>From = '''', Subject = '''', Body = ''''\<rparr> of
           (message, err) \<Rightarrow>
             (case err of
                Some _ \<Rightarrow> (Fprint ''422'' (WriteHeader StatusNotAcceptable w), None)
              | None \<Rightarrow> (WriteHeader StatusAccepted w, Some message))))"

text \<open>The body of the goroutine: it sets the subject, calls \<open>Send\<close> and drops what
  \<open>Send\<close> returns.\<close>

definition ServeHTTP_go :: "'w env \<Rightarrow> config \<Rightarrow> Email \<Rightarrow> 'w state \<Rightarrow> unit result \<times> 'w state" where
  "ServeHTTP_go env cfg message s =
     (case Send env cfg (message\<lparr>Subject := ''New Web Inquiry''\<rparr>) s of
        (Panic, s1) \<Rightarrow> (Panic, s1)
      | (Return _, s1) \<Rightarrow> (Return (), s1))"

subsection \<open>Observations on the recorded calls\<close>

text \<open>The servers of the SMTP transactions among the recorded calls, in order.\<close>

fun attempts :: "event list \<Rightarrow> string list" where
  "attempts [] = []"
| "attempts (Call_SendMail server sender rcpts msg # evs) = server # attempts evs"
| "attempts (ev # evs) = attempts evs"

text \<open>A recorded call is addressed by the configuration alone: a DNS lookup asks for the
  domain of the inbox address, a message is built with the inbox address as its only
  recipient, an SMTP transaction has the outbound sender as its sender and the inbox
  address as its only recipient.\<close>

fun fixed_destination :: "config \<Rightarrow> event \<Rightarrow> bool" where
  "fixed_destination cfg (Call_LookupMX domain) = (domain = last (Split (inboxAddress cfg) CHR ''@''))"
| "fixed_destination cfg (Call_Printf line) = True"
| "fixed_destination cfg (Call_Bytes message) = (msg_To message = [inboxAddress cfg])"
| "fixed_destination cfg (Call_SendMail server sender rcpts msg) =
     (sender = outboundSender cfg \<and> rcpts = [inboxAddress cfg])"

subsection \<open>A concrete outside\<close>

text \<open>
  An outside to run the program in: \<open>example.com\<close> has three mail servers, of which only
  \<open>c.example.com\<close> accepts mail; \<open>example.org\<close> has the two that refuse;
  \<open>example.net\<close> has no MX record; every other domain fails to resolve. The decoder
  accepts the body \<open>{}\<close>, which sets no field, and rejects every other body. The state
  of the outside counts the network calls.
\<close>

definition example_env :: "nat env" where
  "example_env =
     \<lparr>net_LookupMX = (\<lambda>domain w.
          ((if domain = ''example.com'' then
              ([\<lparr>Host = ''a.example.com.'', Pref = 10\<rparr>,
                \<lparr>Host = ''b.example.com.'', Pref = 20\<rparr>,
                \<lparr>Host = ''c.example.com.'', Pref = 30\<rparr>], None)
            else if domain = ''example.org'' then
              ([\<lparr>Host = ''a.example.com.'', Pref = 10\<rparr>,
                \<lparr>Host = ''b.example.com.'', Pref = 20\<rparr>], None)
            else if domain = ''example.net'' then ([], None)
            else ([], Some (Err ''no such host''))), Suc w)),
       smtp_SendMail = (\<lambda>server sender rcpts msg w.
          (if server = ''c.example.com:25'' then None else Some (Err ''connection refused''), Suc w)),
       email_Bytes = (\<lambda>message w.
          ((''From: '' @ msg_From message @ ''; Subject: '' @ msg_Subject message
            @ ''; '' @ msg_Text message, None), w)),
       json_Decode = (\<lambda>body v.
          if body = ''{}'' then (v, None) else (v, Some (Err ''invalid character'')))\<rparr>"

definition example_cfg :: "string \<Rightarrow> config" where
  "example_cfg inbox =
     \<lparr>inboxAddress = inbox, outboundSender = ''noreply@sender.example'',
      whitelistedDomain = ''https://www.example.com''\<rparr>"

definition example_email :: Email where
  "example_email = \<lparr>From = ''visitor@web.example'', Subject = ''New Web Inquiry'', Body = ''Hello''\<rparr>"

definition start :: "nat state" where
  "start = \<lparr>world = 0, events = []\<rparr>"

text \<open>A request that passes the checks of method, path and headers.\<close>

definition example_request :: "string \<Rightarrow> Request" where
  "example_request body =
     \<lparr>Method = ''POST'', URL_Path = ''/send'',
      Header = [(''Content-Type'', ''application/json''), (''Accept'', ''*/*'')],
      ReqBody = body\<rparr>"

text \<open>The same outside with a serialiser that fails once, on the call made right after
  the first network call, and builds the message on every other call.\<close>

definition flaky_env :: "nat env" where
  "flaky_env =
     example_env\<lparr>email_Bytes := (\<lambda>message w.
        (if w = Suc 0 then ('''', Some (Err ''cannot build''))
         else fst (email_Bytes example_env message w), Suc w))\<rparr>"





section \<open>Properties\<close>

subsection \<open>Splitting, and the calls each step records\<close>

lemma attempts_append: "attempts (xs @ ys) = attempts xs @ attempts ys"
  by (induction xs rule: attempts.induct) simp_all

lemma Index_None: "(Index s sep = None) = (sep \<notin> set s)"
  by (induction s) auto

declare Split.simps [simp del]

lemma Split_not_Nil: "Split s sep \<noteq> []"
  by (cases "Index s sep") (simp_all add: Split.simps [of s sep])

lemma Split_no_sep: "sep \<notin> set s \<Longrightarrow> Split s sep = [s]"
  using Index_None [of s sep] by (simp add: Split.simps [of s sep])

lemma events_emit: "events (emit ev s) = events s @ [ev]"
  by (simp add: emit_def)

lemma world_emit: "world (emit ev s) = world s"
  by (simp add: emit_def)

lemma Send_eq:
  "Send env cfg e s =
     (case LookupMX env (last (Split (inboxAddress cfg) CHR ''@'')) s of
        ((mxServers, err), s1) \<Rightarrow>
          (case err of
             Some _ \<Rightarrow> (Return err, s1)
           | None \<Rightarrow>
               (Return err,
                Send_loop env cfg e
                  (map (\<lambda>server. TrimRight (Host server) ''.'' @ '':25'') mxServers) s1)))"
  unfolding Send_def Let_def
  by (simp add: Split_not_Nil last_conv_nth)


lemma LookupMX_eq:
  "net_LookupMX env domain (world s) = (r, w') \<Longrightarrow>
   LookupMX env domain s = (r, s\<lparr>world := w', events := events s @ [Call_LookupMX domain]\<rparr>)"
  by (simp add: LookupMX_def emit_def)

lemma ConstructMessage_events:
  "ConstructMessage env cfg e s = (r, s1) \<Longrightarrow>
   events s1 = events s @ [Call_Bytes \<lparr>msg_From = From e, msg_To = [inboxAddress cfg],
                                       msg_Subject = Subject e, msg_Text = Body e\<rparr>]"
  by (auto simp: ConstructMessage_def Let_def emit_def split: prod.splits)

lemma SendMail_events:
  "SendMail env server sender rcpts msg s = (err, s1) \<Longrightarrow>
   events s1 = events s @ [Call_SendMail server sender rcpts msg]"
  by (auto simp: SendMail_def emit_def split: prod.splits)

lemma SendMail_fst:
  "fst (SendMail env server sender rcpts msg s) = fst (smtp_SendMail env server sender rcpts msg (world s))"
  by (simp add: SendMail_def split: prod.splits)

lemma events_log_Printf: "events (log_Printf line s) = events s @ [Call_Printf line]"
  by (simp add: log_Printf_def emit_def)

lemma Send_loop_events:
  "\<exists>new. events (Send_loop env cfg e servers s) = events s @ new
     \<and> (\<forall>ev \<in> set new. fixed_destination cfg ev)
     \<and> set (attempts new) \<subseteq> set servers"
proof (induction servers arbitrary: s)
  case Nil
  show ?case by simp
next
  case (Cons server servers)
  obtain msg err s1 where cm: "ConstructMessage env cfg e s = ((msg, err), s1)"
    by (metis surj_pair)
  note ev1 = ConstructMessage_events [OF cm]
  show ?case
  proof (cases err)
    case (Some a)
    from Cons.IH [of s1] obtain new where
      "events (Send_loop env cfg e servers s1) = events s1 @ new"
      "\<forall>ev \<in> set new. fixed_destination cfg ev" "set (attempts new) \<subseteq> set servers"
      by blast
    with cm Some ev1 show ?thesis
      by (auto simp: attempts_append)
  next
    case None
    let ?s2 = "log_Printf (''Attempting send to: '' @ server
                                      @ '', smtp_from: '' @ outboundSender cfg
                                      @ '', rcpt_to: '' @ inboxAddress cfg
                                      @ '', message: '' @ msg @ [CHR 0x0A]) s1"
    obtain err2 s3 where sm: "SendMail env server (outboundSender cfg) [inboxAddress cfg] msg ?s2 = (err2, s3)"
      by (metis surj_pair)
    note ev3 = SendMail_events [OF sm]
    show ?thesis
    proof (cases err2)
      case None
      with cm \<open>err = None\<close> sm ev1 ev3 show ?thesis
        by (auto simp: events_log_Printf attempts_append)
    next
      case (Some err')
      let ?s4 = "log_Printf (''Received error from mx server: '' @ Error err' @ [CHR 0x0A]) s3"
      from Cons.IH [of ?s4] obtain new where
        "events (Send_loop env cfg e servers ?s4) = events ?s4 @ new"
        "\<forall>ev \<in> set new. fixed_destination cfg ev" "set (attempts new) \<subseteq> set servers"
        by blast
      with cm \<open>err = None\<close> sm Some ev1 ev3 show ?thesis
        by (auto simp: events_log_Printf attempts_append)
    qed
  qed
qed

subsection \<open>The loop over the candidate servers\<close>

lemma Send_loop_rejected:
  assumes build: "\<And>s'. snd (fst (ConstructMessage env cfg e s')) = None"
    and rej: "\<And>x msg w. x \<in> set pre \<Longrightarrow>
      fst (smtp_SendMail env x (outboundSender cfg) [inboxAddress cfg] msg w) \<noteq> None"
  shows "\<exists>s'. Send_loop env cfg e (pre @ rest) s = Send_loop env cfg e rest s'
           \<and> attempts (events s') = attempts (events s) @ pre"
  using rej
proof (induction pre arbitrary: s)
  case Nil
  show ?case by (rule exI [of _ s]) simp
next
  case (Cons x pre)
  obtain msg err s1 where cm: "ConstructMessage env cfg e s = ((msg, err), s1)"
    by (metis surj_pair)
  with build [of s] have err: "err = None"
    by simp
  note ev1 = ConstructMessage_events [OF cm]
  let ?s2 = "log_Printf (''Attempting send to: '' @ x
                          @ '', smtp_from: '' @ outboundSender cfg
                          @ '', rcpt_to: '' @ inboxAddress cfg
                          @ '', message: '' @ msg @ [CHR 0x0A]) s1"
  obtain err2 s3 where sm: "SendMail env x (outboundSender cfg) [inboxAddress cfg] msg ?s2 = (err2, s3)"
    by (metis surj_pair)
  note ev3 = SendMail_events [OF sm]
  from Cons.prems [of x msg "world ?s2"] SendMail_fst [of env x "outboundSender cfg" "[inboxAddress cfg]" msg ?s2] sm
  obtain err' where err2: "err2 = Some err'"
    by auto
  let ?s4 = "log_Printf (''Received error from mx server: '' @ Error err' @ [CHR 0x0A]) s3"
  have step: "Send_loop env cfg e ((x # pre) @ rest) s = Send_loop env cfg e (pre @ rest) ?s4"
    using cm err sm err2 by simp
  have att: "attempts (events ?s4) = attempts (events s) @ [x]"
    using ev1 ev3 by (simp add: events_log_Printf attempts_append)
  from Cons.IH [of ?s4] Cons.prems obtain s' where
    "Send_loop env cfg e (pre @ rest) ?s4 = Send_loop env cfg e rest s'"
    "attempts (events s') = attempts (events ?s4) @ pre"
    by auto
  with step att show ?case
    by auto
qed

lemma Send_loop_accepted:
  assumes build: "\<And>s'. snd (fst (ConstructMessage env cfg e s')) = None"
    and acc: "\<And>msg w. fst (smtp_SendMail env c (outboundSender cfg) [inboxAddress cfg] msg w) = None"
  shows "attempts (events (Send_loop env cfg e (c # post) s)) = attempts (events s) @ [c]"
proof -
  obtain msg err s1 where cm: "ConstructMessage env cfg e s = ((msg, err), s1)"
    by (metis surj_pair)
  with build [of s] have err: "err = None"
    by simp
  note ev1 = ConstructMessage_events [OF cm]
  let ?s2 = "log_Printf (''Attempting send to: '' @ c
                          @ '', smtp_from: '' @ outboundSender cfg
                          @ '', rcpt_to: '' @ inboxAddress cfg
                          @ '', message: '' @ msg @ [CHR 0x0A]) s1"
  obtain err2 s3 where sm: "SendMail env c (outboundSender cfg) [inboxAddress cfg] msg ?s2 = (err2, s3)"
    by (metis surj_pair)
  note ev3 = SendMail_events [OF sm]
  from acc [of msg "world ?s2"] SendMail_fst [of env c "outboundSender cfg" "[inboxAddress cfg]" msg ?s2] sm
  have err2: "err2 = None"
    by simp
  have "Send_loop env cfg e (c # post) s = s3"
    using cm err sm err2 by simp
  with ev1 ev3 show ?thesis
    by (simp add: events_log_Printf attempts_append)
qed

lemma Send_lookup_ok:
  assumes "net_LookupMX env (last (Split (inboxAddress cfg) CHR ''@'')) (world s) = ((mxServers, None), w')"
  shows "Send env cfg e s =
           (Return None,
            Send_loop env cfg e (map (\<lambda>server. TrimRight (Host server) ''.'' @ '':25'') mxServers)
              (s\<lparr>world := w', events := events s @ [Call_LookupMX (last (Split (inboxAddress cfg) CHR ''@''))]\<rparr>))"
  by (simp add: Send_eq LookupMX_eq [OF assms])

lemma Send_lookup_failed:
  assumes "net_LookupMX env (last (Split (inboxAddress cfg) CHR ''@'')) (world s) = ((mxServers, Some err), w')"
  shows "Send env cfg e s =
           (Return (Some err),
            s\<lparr>world := w', events := events s @ [Call_LookupMX (last (Split (inboxAddress cfg) CHR ''@''))]\<rparr>)"
  by (simp add: Send_eq LookupMX_eq [OF assms])

subsection \<open>What Send returns\<close>

lemma Send_error_is_lookup_error:
  assumes "fst (Send env cfg e s) = Return (Some err)"
  shows "events (snd (Send env cfg e s)) = events s @ [Call_LookupMX (last (Split (inboxAddress cfg) CHR ''@''))]"
proof -
  obtain mxServers err0 w' where
    lk: "net_LookupMX env (last (Split (inboxAddress cfg) CHR ''@'')) (world s) = ((mxServers, err0), w')"
    by (metis surj_pair)
  show ?thesis
  proof (cases err0)
    case None
    with Send_lookup_ok [of env cfg s mxServers w' e] lk assms show ?thesis
      by simp
  next
    case (Some a)
    with Send_lookup_failed [of env cfg s mxServers a w' e] lk show ?thesis
      by simp
  qed
qed

lemma Send_not_Panic: "fst (Send env cfg e s) \<noteq> Panic"
  by (simp add: Send_eq split: prod.splits option.splits)

lemma sendErrorMessage_eq:
  "sendErrorMessage env cfg err s =
     (case Send env cfg
             \<lparr>From = ''errors@'' @ last (Split (outboundSender cfg) CHR ''@''),
              Subject = ''Application Error'', Body = Error err\<rparr>
             (log_Printf (''Got Error: '' @ Error err @ [CHR 0x0A]) s) of
        (Panic, s2) \<Rightarrow> (Panic, s2)
      | (Return _, s2) \<Rightarrow> (Return (), s2))"
  unfolding sendErrorMessage_def Let_def
  by (simp add: Split_not_Nil last_conv_nth)

lemma Send_events:
  "\<exists>new. events (snd (Send env cfg e s))
            = events s @ Call_LookupMX (last (Split (inboxAddress cfg) CHR ''@'')) # new
         \<and> (\<forall>ev \<in> set new. fixed_destination cfg ev)
         \<and> set (attempts new)
             \<subseteq> set (map (\<lambda>server. TrimRight (Host server) ''.'' @ '':25'')
                      (fst (fst (net_LookupMX env (last (Split (inboxAddress cfg) CHR ''@''))
                                   (world s)))))"
proof -
  let ?d = "last (Split (inboxAddress cfg) CHR ''@'')"
  obtain mxServers err w' where lk: "net_LookupMX env ?d (world s) = ((mxServers, err), w')"
    by (metis surj_pair)
  show ?thesis
  proof (cases err)
    case (Some a)
    with Send_lookup_failed [of env cfg s mxServers a w' e] lk show ?thesis
      by simp
  next
    case None
    let ?s1 = "s\<lparr>world := w', events := events s @ [Call_LookupMX ?d]\<rparr>"
    let ?servers = "map (\<lambda>server. TrimRight (Host server) ''.'' @ '':25'') mxServers"
    from Send_loop_events [of env cfg e ?servers ?s1] obtain new where
      "events (Send_loop env cfg e ?servers ?s1) = events ?s1 @ new"
      "\<forall>ev \<in> set new. fixed_destination cfg ev"
      "set (attempts new) \<subseteq> set ?servers"
      by blast
    with Send_lookup_ok [of env cfg s mxServers w' e] lk None show ?thesis
      by simp
  qed
qed

subsection \<open>Ordered failover\<close>

text \<open>
  C4, as amended. When the MX lookup succeeds and the candidate servers are
  \<open>pre @ c # post\<close>, the message builds at every attempt, every server of \<open>pre\<close>
  refuses the SMTP transaction and \<open>c\<close> accepts it, then \<open>Send\<close> returns nil and its SMTP
  transactions go to the servers of \<open>pre\<close>, in their order, and then to \<open>c\<close>: no server
  of \<open>post\<close> is tried. For the candidates \<open>[A, B, C]\<close> of which only \<open>C\<close> accepts,
  \<open>pre\<close> is \<open>[A, B]\<close> and \<open>post\<close> is empty.
\<close>

theorem Send_failover_order:
  assumes lookup: "net_LookupMX env (last (Split (inboxAddress cfg) CHR ''@'')) (world s) = ((mxServers, None), w')"
    and servers: "map (\<lambda>server. TrimRight (Host server) ''.'' @ '':25'') mxServers = pre @ c # post"
    and build: "\<And>s'. snd (fst (ConstructMessage env cfg e s')) = None"
    and rej: "\<And>x msg w. x \<in> set pre \<Longrightarrow>
      fst (smtp_SendMail env x (outboundSender cfg) [inboxAddress cfg] msg w) \<noteq> None"
    and acc: "\<And>msg w. fst (smtp_SendMail env c (outboundSender cfg) [inboxAddress cfg] msg w) = None"
  shows "fst (Send env cfg e s) = Return None
       \<and> attempts (events (snd (Send env cfg e s))) = attempts (events s) @ pre @ [c]"
proof -
  let ?s1 = "s\<lparr>world := w', events := events s @ [Call_LookupMX (last (Split (inboxAddress cfg) CHR ''@''))]\<rparr>"
  have send: "Send env cfg e s = (Return None, Send_loop env cfg e (pre @ c # post) ?s1)"
    using Send_lookup_ok [OF lookup] servers by simp
  from Send_loop_rejected [of env cfg e pre "c # post" ?s1, OF build rej] obtain s' where
    "Send_loop env cfg e (pre @ c # post) ?s1 = Send_loop env cfg e (c # post) s'"
    "attempts (events s') = attempts (events ?s1) @ pre"
    by blast
  with Send_loop_accepted [of env cfg e c post s', OF build acc] send show ?thesis
    by (simp add: attempts_append)
qed

theorem Send_failover_order_witness:
  "fst (Send example_env (example_cfg ''inbox@example.com'') example_email start) = Return None
   \<and> attempts (events (snd (Send example_env (example_cfg ''inbox@example.com'') example_email start)))
       = [''a.example.com:25'', ''b.example.com:25'', ''c.example.com:25'']"
proof -
  have split: "Split ''inbox@example.com'' CHR ''@'' = [''inbox'', ''example.com'']"
    by code_simp
  have "fst (Send example_env (example_cfg ''inbox@example.com'') example_email start) = Return None
       \<and> attempts (events (snd (Send example_env (example_cfg ''inbox@example.com'') example_email start)))
           = attempts (events start) @ [''a.example.com:25'', ''b.example.com:25''] @ [''c.example.com:25'']"
  proof (rule Send_failover_order)
    show "net_LookupMX example_env (last (Split (inboxAddress (example_cfg ''inbox@example.com'')) CHR ''@'')) (world start)
            = (([\<lparr>Host = ''a.example.com.'', Pref = 10\<rparr>,
                 \<lparr>Host = ''b.example.com.'', Pref = 20\<rparr>,
                 \<lparr>Host = ''c.example.com.'', Pref = 30\<rparr>], None), Suc 0)"
      by (simp add: example_env_def example_cfg_def start_def split)
    show "map (\<lambda>server. TrimRight (Host server) ''.'' @ '':25'')
            [\<lparr>Host = ''a.example.com.'', Pref = 10\<rparr>,
             \<lparr>Host = ''b.example.com.'', Pref = 20\<rparr>,
             \<lparr>Host = ''c.example.com.'', Pref = 30\<rparr>]
          = [''a.example.com:25'', ''b.example.com:25''] @ ''c.example.com:25'' # []"
      by (simp add: TrimRight_def)
    show "\<And>s'. snd (fst (ConstructMessage example_env (example_cfg ''inbox@example.com'') example_email s')) = None"
      by (simp add: ConstructMessage_def example_env_def)
    show "\<And>x msg w. x \<in> set [''a.example.com:25'', ''b.example.com:25''] \<Longrightarrow>
            fst (smtp_SendMail example_env x (outboundSender (example_cfg ''inbox@example.com''))
                   [inboxAddress (example_cfg ''inbox@example.com'')] msg w) \<noteq> None"
      by (auto simp: example_env_def)
    show "\<And>msg w. fst (smtp_SendMail example_env ''c.example.com:25'' (outboundSender (example_cfg ''inbox@example.com''))
                   [inboxAddress (example_cfg ''inbox@example.com'')] msg w) = None"
      by (simp add: example_env_def)
  qed
  then show ?thesis
    by (simp add: start_def)
qed

text \<open>
  C4, as stated, fails where a build fails: \<open>Send\<close> builds the message anew for each
  candidate and passes over a candidate whose build returned an error. With the candidates
  \<open>[A, B, C]\<close>, of which only \<open>C\<close> accepts, and a serialiser that fails on the first
  build, no transaction goes to \<open>A\<close>: the attempts are \<open>B\<close>, then \<open>C\<close>.
\<close>

theorem Send_failover_order_counterexample:
  "fst (net_LookupMX flaky_env ''example.com'' 0)
     = ([\<lparr>Host = ''a.example.com.'', Pref = 10\<rparr>,
         \<lparr>Host = ''b.example.com.'', Pref = 20\<rparr>,
         \<lparr>Host = ''c.example.com.'', Pref = 30\<rparr>], None)
   \<and> fst (smtp_SendMail flaky_env ''a.example.com:25'' ''noreply@sender.example'' [''inbox@example.com''] '''' 0) \<noteq> None
   \<and> fst (smtp_SendMail flaky_env ''b.example.com:25'' ''noreply@sender.example'' [''inbox@example.com''] '''' 0) \<noteq> None
   \<and> fst (smtp_SendMail flaky_env ''c.example.com:25'' ''noreply@sender.example'' [''inbox@example.com''] '''' 0) = None
   \<and> attempts (events (snd (Send flaky_env (example_cfg ''inbox@example.com'') example_email start)))
       = [''b.example.com:25'', ''c.example.com:25'']"
proof -
  have split: "Split ''inbox@example.com'' CHR ''@'' = [''inbox'', ''example.com'']"
    by code_simp
  show ?thesis
    by (simp add: Send_eq LookupMX_def ConstructMessage_def SendMail_def log_Printf_def emit_def
          flaky_env_def example_env_def example_cfg_def example_email_def start_def split
          TrimRight_def Let_def)
qed

subsection \<open>A failed MX lookup\<close>

text \<open>
  C5. When the MX lookup for the domain of the inbox address returns an error, \<open>Send\<close>
  returns that error at once: the lookup is the only call it makes, so it makes no SMTP
  transaction.
\<close>

theorem Send_lookup_error:
  assumes "net_LookupMX env (last (Split (inboxAddress cfg) CHR ''@'')) (world s) = ((mxServers, Some err), w')"
  shows "Send env cfg e s =
           (Return (Some err),
            s\<lparr>world := w', events := events s @ [Call_LookupMX (last (Split (inboxAddress cfg) CHR ''@''))]\<rparr>)
       \<and> attempts (events (snd (Send env cfg e s))) = attempts (events s)"
  by (simp add: Send_lookup_failed [OF assms] attempts_append)

theorem Send_lookup_error_witness:
  "Send example_env (example_cfg ''inbox@nowhere.example'') example_email start =
     (Return (Some (Err ''no such host'')),
      \<lparr>world = Suc 0, events = [Call_LookupMX ''nowhere.example'']\<rparr>)
   \<and> attempts (events (snd (Send example_env (example_cfg ''inbox@nowhere.example'') example_email start))) = []"
proof -
  have split: "Split ''inbox@nowhere.example'' CHR ''@'' = [''inbox'', ''nowhere.example'']"
    by code_simp
  have "net_LookupMX example_env (last (Split (inboxAddress (example_cfg ''inbox@nowhere.example'')) CHR ''@'')) (world start)
          = (([], Some (Err ''no such host'')), Suc 0)"
    by (simp add: example_env_def example_cfg_def start_def split)
  from Send_lookup_error [OF this, of example_email] show ?thesis
    by (simp add: example_cfg_def start_def split)
qed

subsection \<open>An MX lookup without records\<close>

text \<open>
  C6. When the MX lookup returns no record and no error, the loop over the candidates
  does not run: the lookup is the only call \<open>Send\<close> makes, no SMTP transaction is made,
  and \<open>Send\<close> returns nil.
\<close>

theorem Send_no_records:
  assumes "net_LookupMX env (last (Split (inboxAddress cfg) CHR ''@'')) (world s) = (([], None), w')"
  shows "Send env cfg e s =
           (Return None,
            s\<lparr>world := w', events := events s @ [Call_LookupMX (last (Split (inboxAddress cfg) CHR ''@''))]\<rparr>)
       \<and> attempts (events (snd (Send env cfg e s))) = attempts (events s)"
  by (simp add: Send_lookup_ok [OF assms] attempts_append)

theorem Send_no_records_witness:
  "Send example_env (example_cfg ''inbox@example.net'') example_email start =
     (Return None, \<lparr>world = Suc 0, events = [Call_LookupMX ''example.net'']\<rparr>)
   \<and> attempts (events (snd (Send example_env (example_cfg ''inbox@example.net'') example_email start))) = []"
proof -
  have split: "Split ''inbox@example.net'' CHR ''@'' = [''inbox'', ''example.net'']"
    by code_simp
  have "net_LookupMX example_env (last (Split (inboxAddress (example_cfg ''inbox@example.net'')) CHR ''@'')) (world start)
          = (([], None), Suc 0)"
    by (simp add: example_env_def example_cfg_def start_def split)
  from Send_no_records [OF this, of example_email] show ?thesis
    by (simp add: example_cfg_def start_def split)
qed

subsection \<open>Every candidate refuses\<close>

text \<open>
  C1. When the MX lookup succeeds, the message builds and every candidate server refuses
  the SMTP transaction, \<open>Send\<close> tries every candidate in order and then returns nil, not
  the error of the last attempt: the \<open>err\<close> it returns is the one of the function body,
  which the loop never assigns.
\<close>

theorem Send_all_refused_returns_nil:
  assumes lookup: "net_LookupMX env (last (Split (inboxAddress cfg) CHR ''@'')) (world s) = ((mxServers, None), w')"
    and servers: "servers = map (\<lambda>server. TrimRight (Host server) ''.'' @ '':25'') mxServers"
    and build: "\<And>s'. snd (fst (ConstructMessage env cfg e s')) = None"
    and rej: "\<And>x msg w. x \<in> set servers \<Longrightarrow>
      fst (smtp_SendMail env x (outboundSender cfg) [inboxAddress cfg] msg w) \<noteq> None"
  shows "fst (Send env cfg e s) = Return None
       \<and> attempts (events (snd (Send env cfg e s))) = attempts (events s) @ servers"
proof -
  let ?s1 = "s\<lparr>world := w', events := events s @ [Call_LookupMX (last (Split (inboxAddress cfg) CHR ''@''))]\<rparr>"
  have send: "Send env cfg e s = (Return None, Send_loop env cfg e servers ?s1)"
    using Send_lookup_ok [OF lookup] servers by simp
  from Send_loop_rejected [of env cfg e servers "[]" ?s1, OF build rej] obtain s' where
    "Send_loop env cfg e servers ?s1 = s'" "attempts (events s') = attempts (events ?s1) @ servers"
    by auto
  with send show ?thesis
    by (simp add: attempts_append)
qed

theorem Send_all_refused_returns_nil_witness:
  "fst (Send example_env (example_cfg ''inbox@example.org'') example_email start) = Return None
   \<and> attempts (events (snd (Send example_env (example_cfg ''inbox@example.org'') example_email start)))
       = [''a.example.com:25'', ''b.example.com:25'']
   \<and> fst (smtp_SendMail example_env ''a.example.com:25'' ''noreply@sender.example'' [''inbox@example.org''] ''x'' 0)
       = Some (Err ''connection refused'')"
proof -
  have split: "Split ''inbox@example.org'' CHR ''@'' = [''inbox'', ''example.org'']"
    by code_simp
  have "fst (Send example_env (example_cfg ''inbox@example.org'') example_email start) = Return None
       \<and> attempts (events (snd (Send example_env (example_cfg ''inbox@example.org'') example_email start)))
           = attempts (events start) @ [''a.example.com:25'', ''b.example.com:25'']"
  proof (rule Send_all_refused_returns_nil)
    show "net_LookupMX example_env (last (Split (inboxAddress (example_cfg ''inbox@example.org'')) CHR ''@'')) (world start)
            = (([\<lparr>Host = ''a.example.com.'', Pref = 10\<rparr>,
                 \<lparr>Host = ''b.example.com.'', Pref = 20\<rparr>], None), Suc 0)"
      by (simp add: example_env_def example_cfg_def start_def split)
    show "[''a.example.com:25'', ''b.example.com:25'']
          = map (\<lambda>server. TrimRight (Host server) ''.'' @ '':25'')
            [\<lparr>Host = ''a.example.com.'', Pref = 10\<rparr>,
             \<lparr>Host = ''b.example.com.'', Pref = 20\<rparr>]"
      by (simp add: TrimRight_def)
    show "\<And>s'. snd (fst (ConstructMessage example_env (example_cfg ''inbox@example.org'') example_email s')) = None"
      by (simp add: ConstructMessage_def example_env_def)
    show "\<And>x msg w. x \<in> set [''a.example.com:25'', ''b.example.com:25''] \<Longrightarrow>
            fst (smtp_SendMail example_env x (outboundSender (example_cfg ''inbox@example.org''))
                   [inboxAddress (example_cfg ''inbox@example.org'')] msg w) \<noteq> None"
      by (auto simp: example_env_def)
  qed
  then show ?thesis
    by (simp add: start_def example_env_def)
qed

subsection \<open>The goroutine of the handler\<close>

text \<open>
  C3. When the \<open>Send\<close> that the handler's goroutine calls returns an error that is not
  nil, the goroutine ends there: it returns with the state \<open>Send\<close> left, in which the MX
  lookup is the only call made. No second message is built and nothing is sent;
  \<open>sendErrorMessage\<close> is not called.
\<close>

theorem ServeHTTP_go_drops_error:
  assumes "fst (Send env cfg (message\<lparr>Subject := ''New Web Inquiry''\<rparr>) s) = Return (Some err)"
  shows "ServeHTTP_go env cfg message s
           = (Return (), snd (Send env cfg (message\<lparr>Subject := ''New Web Inquiry''\<rparr>) s))
       \<and> events (snd (ServeHTTP_go env cfg message s))
           = events s @ [Call_LookupMX (last (Split (inboxAddress cfg) CHR ''@''))]"
proof -
  obtain s1 where "Send env cfg (message\<lparr>Subject := ''New Web Inquiry''\<rparr>) s = (Return (Some err), s1)"
    using assms by (metis prod.collapse)
  with Send_error_is_lookup_error [OF assms] show ?thesis
    by (simp add: ServeHTTP_go_def)
qed

theorem ServeHTTP_go_drops_error_witness:
  "fst (Send example_env (example_cfg ''inbox@nowhere.example'') (example_email\<lparr>Subject := ''New Web Inquiry''\<rparr>) start)
     = Return (Some (Err ''no such host''))
   \<and> events (snd (ServeHTTP_go example_env (example_cfg ''inbox@nowhere.example'') example_email start))
       = [Call_LookupMX ''nowhere.example'']"
proof -
  have split: "Split ''inbox@nowhere.example'' CHR ''@'' = [''inbox'', ''nowhere.example'']"
    by code_simp
  have "net_LookupMX example_env (last (Split (inboxAddress (example_cfg ''inbox@nowhere.example'')) CHR ''@'')) (world start)
          = (([], Some (Err ''no such host'')), Suc 0)"
    by (simp add: example_env_def example_cfg_def start_def split)
  from Send_lookup_failed [OF this, of "example_email\<lparr>Subject := ''New Web Inquiry''\<rparr>"]
  have failed: "fst (Send example_env (example_cfg ''inbox@nowhere.example'') (example_email\<lparr>Subject := ''New Web Inquiry''\<rparr>) start)
     = Return (Some (Err ''no such host''))"
    by simp
  note dropped = ServeHTTP_go_drops_error [OF failed, THEN conjunct2]
  have "events (snd (ServeHTTP_go example_env (example_cfg ''inbox@nowhere.example'') example_email start))
          = [Call_LookupMX ''nowhere.example'']"
    unfolding dropped by (simp add: example_cfg_def start_def split)
  with failed show ?thesis
    by simp
qed

subsection \<open>The destination is the configuration's\<close>




subsection \<open>The domain of the inbox address\<close>

text \<open>
  C9. Splitting the inbox address at \<open>@\<close> never gives an empty list, so \<open>Send\<close> does not
  panic when it takes the last element; its first call is the MX lookup for that element.
  For an inbox address without \<open>@\<close> the element is the whole address.
\<close>

theorem Send_domain_total:
  "Split (inboxAddress cfg) CHR ''@'' \<noteq> []
   \<and> fst (Send env cfg e s) \<noteq> Panic
   \<and> (\<exists>new. events (snd (Send env cfg e s))
              = events s @ Call_LookupMX (last (Split (inboxAddress cfg) CHR ''@'')) # new)
   \<and> (CHR ''@'' \<notin> set (inboxAddress cfg) \<longrightarrow>
        last (Split (inboxAddress cfg) CHR ''@'') = inboxAddress cfg)"
proof -
  from Send_events [of env cfg e s] have
    "\<exists>new. events (snd (Send env cfg e s))
              = events s @ Call_LookupMX (last (Split (inboxAddress cfg) CHR ''@'')) # new"
    by blast
  then show ?thesis
    by (simp add: Split_not_Nil Send_not_Panic Split_no_sep)
qed

theorem Send_domain_total_witness:
  "CHR ''@'' \<notin> set ''example.org''
   \<and> fst (Send example_env (example_cfg ''example.org'') example_email start) \<noteq> Panic
   \<and> hd (events (snd (Send example_env (example_cfg ''example.org'') example_email start)))
       = Call_LookupMX ''example.org''"
proof -
  have no_at: "CHR ''@'' \<notin> set ''example.org''"
    by simp
  note total = Send_domain_total [of "example_cfg ''example.org''" example_env example_email start]
  from total no_at have "last (Split (inboxAddress (example_cfg ''example.org'')) CHR ''@'') = ''example.org''"
    by (simp add: example_cfg_def)
  with total no_at show ?thesis
    by (auto simp: start_def)
qed

subsection \<open>A body that decodes\<close>

text \<open>
  C10. For a POST to \<open>/send\<close> with the content type \<open>application/json\<close> and an Accept
  header of \<open>*/*\<close> or \<open>application/json\<close>, whenever the decoder returns no error the
  handler answers 202 and starts the goroutine with what the decoder made of the zero
  \<open>Email\<close> (a field the decoder did not set is the empty string); the goroutine sends it
  with the subject \<open>New Web Inquiry\<close>. Nothing looks at \<open>From\<close> or \<open>Body\<close> on the way.
\<close>

theorem ServeHTTP_accepts_decoded:
  assumes "Method r = ''POST''" and "URL_Path r = ''/send''"
    and "Header_Get (Header r) ''Content-Type'' = ''application/json''"
    and "Header_Get (Header r) ''Accept'' = ''*/*''
         \<or> Header_Get (Header r) ''Accept'' = ''application/json''"
    and "json_Decode env (ReqBody r) \<lparr>From = '''', Subject = '''', Body = ''''\<rparr> = (message, None)"
    and "status w = None"
  shows "ServeHTTP env r w = (w\<lparr>status := Some 202\<rparr>, Some message)
       \<and> ServeHTTP_go env cfg message s
           = (Return (), snd (Send env cfg (message\<lparr>Subject := ''New Web Inquiry''\<rparr>) s))"
proof
  from assms show "ServeHTTP env r w = (w\<lparr>status := Some 202\<rparr>, Some message)"
    by (auto simp: ServeHTTP_def WriteHeader_def StatusAccepted_def)
next
  obtain res s1 where send: "Send env cfg (message\<lparr>Subject := ''New Web Inquiry''\<rparr>) s = (res, s1)"
    by (metis surj_pair)
  with Send_not_Panic [of env cfg "message\<lparr>Subject := ''New Web Inquiry''\<rparr>" s]
  obtain err where "res = Return err"
    by (cases res) auto
  with send show "ServeHTTP_go env cfg message s
           = (Return (), snd (Send env cfg (message\<lparr>Subject := ''New Web Inquiry''\<rparr>) s))"
    by (simp add: ServeHTTP_go_def)
qed

theorem ServeHTTP_accepts_decoded_witness:
  "ServeHTTP example_env (example_request ''{}'') \<lparr>status = None, written = ''''\<rparr>
     = (\<lparr>status = Some 202, written = ''''\<rparr>, Some \<lparr>From = '''', Subject = '''', Body = ''''\<rparr>)"
proof -
  have "ServeHTTP example_env (example_request ''{}'') \<lparr>status = None, written = ''''\<rparr>
          = (\<lparr>status = None, written = ''''\<rparr>\<lparr>status := Some 202\<rparr>,
             Some \<lparr>From = '''', Subject = '''', Body = ''''\<rparr>)"
    by (rule ServeHTTP_accepts_decoded [THEN conjunct1])
       (simp_all add: example_request_def example_env_def Header_Get_def)
  then show ?thesis
    by simp
qed

subsection \<open>A body that does not decode\<close>

text \<open>
  C2. For a POST to \<open>/send\<close> with the content type \<open>application/json\<close> and an Accept
  header of \<open>*/*\<close> or \<open>application/json\<close>, when the decoder returns an error the handler
  starts no goroutine and writes the text \<open>422\<close> under the status 406
  (\<open>http.StatusNotAcceptable\<close>), not under the status 422.
\<close>

theorem ServeHTTP_decode_error_status:
  assumes "Method r = ''POST''" and "URL_Path r = ''/send''"
    and "Header_Get (Header r) ''Content-Type'' = ''application/json''"
    and "Header_Get (Header r) ''Accept'' = ''*/*''
         \<or> Header_Get (Header r) ''Accept'' = ''application/json''"
    and "json_Decode env (ReqBody r) \<lparr>From = '''', Subject = '''', Body = ''''\<rparr> = (message, Some err)"
    and "status w = None"
  shows "ServeHTTP env r w = (w\<lparr>status := Some 406, written := written w @ ''422''\<rparr>, None)"
  using assms
  by (auto simp: ServeHTTP_def WriteHeader_def Fprint_def Let_def StatusNotAcceptable_def)

theorem ServeHTTP_decode_error_status_witness:
  "ServeHTTP example_env (example_request ''{'') \<lparr>status = None, written = ''''\<rparr>
     = (\<lparr>status = Some 406, written = ''422''\<rparr>, None)"
proof -
  have "ServeHTTP example_env (example_request ''{'') \<lparr>status = None, written = ''''\<rparr>
          = (\<lparr>status = None, written = ''''\<rparr>
               \<lparr>status := Some 406, written := written \<lparr>status = None, written = ''''\<rparr> @ ''422''\<rparr>, None)"
    by (rule ServeHTTP_decode_error_status [where message = "\<lparr>From = '''', Subject = '''', Body = ''''\<rparr>"
          and err = "Err ''invalid character''"])
       (simp_all add: example_request_def example_env_def Header_Get_def)
  then show ?thesis
    by simp
qed

end
